theory Spec2Isabelle
  imports Main
begin

section \<open>Strings\<close>

text \<open>
  A Python \<open>str\<close> is modelled as a \<open>string\<close> whose characters are the code points
  below 256. \<open>lower\<close> is \<open>str.lower()\<close> and \<open>strip\<close> is \<open>str.strip()\<close> without
  arguments, both on that range. \<open>str.lower()\<close> maps the letters \<open>A\<close> to \<open>Z\<close> (65 to 90)
  and the capital letters 192 to 214 and 216 to 222 to the code point 32 above them, and
  leaves every other code point below 256 as it is. The characters that \<open>str.strip()\<close>
  removes at both ends are the ones \<open>str.isspace()\<close> accepts: the code points 9 to 13,
  28 to 32, 133 (next line) and 160 (no-break space).
\<close>

definition lower_char :: "char \<Rightarrow> char" where
  "lower_char c =
     (let n = (of_char c :: nat)
      in if (65 \<le> n \<and> n \<le> 90) \<or> (192 \<le> n \<and> n \<le> 214) \<or> (216 \<le> n \<and> n \<le> 222)
         then char_of (n + 32) else c)"

definition lower :: "string \<Rightarrow> string" where
  "lower s = map lower_char s"

definition isspace :: "char \<Rightarrow> bool" where
  "isspace c =
     (let n = (of_char c :: nat)
      in (9 \<le> n \<and> n \<le> 13) \<or> (28 \<le> n \<and> n \<le> 32) \<or> n = 133 \<or> n = 160)"

definition lstrip :: "string \<Rightarrow> string" where
  "lstrip s = dropWhile isspace s"

definition rstrip :: "string \<Rightarrow> string" where
  "rstrip s = rev (dropWhile isspace (rev s))"

definition strip :: "string \<Rightarrow> string" where
  "strip s = rstrip (lstrip s)"

section \<open>Exceptions\<close>

text \<open>
  Exceptions are values. \<open>HTTPError\<close>, \<open>URLError\<close> and \<open>ValueError\<close> stand for
  the three classes the \<open>except\<close> clause of \<open>fetch_html\<close> names (and their
  subclasses), \<open>OtherException\<close> for every other subclass of \<open>Exception\<close>; the
  argument is the message, \<open>str(exc)\<close>.
\<close>

datatype exn = HTTPError string | URLError string | ValueError string | OtherException string

fun str_exn :: "exn \<Rightarrow> string" where
  "str_exn (HTTPError m) = m"
| "str_exn (URLError m) = m"
| "str_exn (ValueError m) = m"
| "str_exn (OtherException m) = m"

section \<open>The description extractor\<close>

text \<open>
  \<open>html.parser.HTMLParser\<close> belongs to the Python standard library. What the
  repository supplies is the callback \<open>handle_starttag\<close>; \<open>HTMLParser.feed\<close> calls it
  once for every start tag it recognises (also for \<open><meta ... />\<close>, through the default
  \<open>handle_startendtag\<close>), in document order, with the tag name and the list of
  attributes, an attribute without a value carrying \<open>None\<close>. The call of \<open>feed\<close> is
  the parameter \<open>scan\<close> of the model: on a text it either returns, having made this
  sequence of calls, or raises an exception. \<open>extract_meta_description\<close> has no handler
  around \<open>parser.feed(html)\<close>, so an exception of \<open>feed\<close> leaves it.
\<close>

type_synonym attrs = "(string \<times> string option) list"
type_synonym starttag = "string \<times> attrs"
type_synonym scanner = "string \<Rightarrow> exn + starttag list"

record MetaDescriptionParser =
  meta_description :: "string option"

definition MetaDescriptionParser_init :: MetaDescriptionParser where
  "MetaDescriptionParser_init = \<lparr>meta_description = None\<rparr>"

text \<open>\<open>value or ""\<close>\<close>

definition or_empty :: "string option \<Rightarrow> string" where
  "or_empty v = (case v of None \<Rightarrow> [] | Some s \<Rightarrow> s)"

text \<open>
  The dict comprehension \<open>{name.lower(): (value or "") for name, value in attrs}\<close>:
  the pairs are stored from left to right, a later one replacing an earlier one with the
  same key.
\<close>

definition attributes_of :: "attrs \<Rightarrow> (string \<rightharpoonup> string)" where
  "attributes_of attrs = foldl (\<lambda>d (name, v). d(lower name \<mapsto> or_empty v)) Map.empty attrs"

text \<open>\<open>d.get(key, "")\<close>\<close>

definition dict_get :: "(string \<rightharpoonup> string) \<Rightarrow> string \<Rightarrow> string" where
  "dict_get d k = (case d k of None \<Rightarrow> [] | Some v \<Rightarrow> v)"

definition handle_starttag ::
  "MetaDescriptionParser \<Rightarrow> string \<Rightarrow> attrs \<Rightarrow> MetaDescriptionParser" where
  "handle_starttag self tag attrs =
     (if meta_description self \<noteq> None then self
      else if lower tag \<noteq> ''meta'' then self
      else
        let attributes = attributes_of attrs;
            name_value = lower (dict_get attributes ''name'');
            property_value = lower (dict_get attributes ''property'')
        in if name_value = ''description''
              \<or> property_value \<in> {''og:description'', ''twitter:description''}
           then self\<lparr>meta_description := Some (strip (dict_get attributes ''content''))\<rparr>
           else self)"

text \<open>The calls of \<open>handle_starttag\<close> that \<open>feed\<close> makes, one per start tag.\<close>

fun feed :: "MetaDescriptionParser \<Rightarrow> starttag list \<Rightarrow> MetaDescriptionParser" where
  "feed self [] = self"
| "feed self ((tag, attrs) # rest) = feed (handle_starttag self tag attrs) rest"

definition extract_meta_description :: "scanner \<Rightarrow> string \<Rightarrow> exn + string" where
  "extract_meta_description scan html =
     (case scan html of
        Inl e \<Rightarrow> Inl e
      | Inr tags \<Rightarrow>
          let parser = feed MetaDescriptionParser_init tags
          in Inr (case meta_description parser of
                    None \<Rightarrow> []
                  | Some s \<Rightarrow> if s = [] then [] else s))"

text \<open>
  The condition under which \<open>handle_starttag\<close> records a value (lines 34 to 44 of the
  source), as a predicate on one start tag, and the value it records (line 45).
\<close>

definition is_description_meta :: "starttag \<Rightarrow> bool" where
  "is_description_meta e =
     (lower (fst e) = ''meta'' \<and>
      (lower (dict_get (attributes_of (snd e)) ''name'') = ''description'' \<or>
       lower (dict_get (attributes_of (snd e)) ''property'') = ''og:description'' \<or>
       lower (dict_get (attributes_of (snd e)) ''property'') = ''twitter:description''))"

definition content_of :: "attrs \<Rightarrow> string" where
  "content_of attrs = strip (dict_get (attributes_of attrs) ''content'')"



section \<open>The URL reader\<close>

text \<open>
  \<open>csv.reader\<close> is the standard library's: \<open>read_urls\<close> iterates over the rows it
  yields, each a list of fields. The rows of the input file are the argument of the model.
\<close>

type_synonym csv_rows = "string list list"

fun read_urls_loop :: "string list \<Rightarrow> csv_rows \<Rightarrow> string list" where
  "read_urls_loop urls [] = urls"
| "read_urls_loop urls (row # rest) =
     (case row of
        [] \<Rightarrow> read_urls_loop urls rest
      | field # _ \<Rightarrow>
          let u = strip field
          in if lower u = ''url'' then read_urls_loop urls rest
             else if u \<noteq> [] then read_urls_loop (urls @ [u]) rest
             else read_urls_loop urls rest)"

definition read_urls :: "csv_rows \<Rightarrow> string list" where
  "read_urls rows = read_urls_loop [] rows"

section \<open>The result writer\<close>

record MetaDescriptionResult =
  url :: string
  description :: string

text \<open>
  \<open>csv.writer.writerow\<close> appends one row to the file; the file is opened with mode
  \<open>"w"\<close>, so it starts empty.
\<close>

definition writerow :: "csv_rows \<Rightarrow> string list \<Rightarrow> csv_rows" where
  "writerow csvfile row = csvfile @ [row]"

fun write_results_loop :: "csv_rows \<Rightarrow> MetaDescriptionResult list \<Rightarrow> csv_rows" where
  "write_results_loop csvfile [] = csvfile"
| "write_results_loop csvfile (result # rest) =
     write_results_loop (writerow csvfile [url result, description result]) rest"

definition write_results :: "MetaDescriptionResult list \<Rightarrow> csv_rows" where
  "write_results results =
     write_results_loop (writerow [] [''URL'', ''Meta Description'']) results"

section \<open>The fetcher\<close>

text \<open>\<open>except (HTTPError, URLError, ValueError)\<close>\<close>

fun caught :: "exn \<Rightarrow> bool" where
  "caught (HTTPError m) = True"
| "caught (URLError m) = True"
| "caught (ValueError m) = True"
| "caught (OtherException m) = False"

record request =
  full_url :: string
  headers :: "(string \<times> string) list"

record response =
  get_content_charset :: "string option"
  read :: "exn + string"

text \<open>
  The standard library calls of \<open>fetch_html\<close>, each of which returns or raises: the
  constructor \<open>Request(url, headers=...)\<close>, \<open>urlopen(request, timeout=...)\<close> and
  \<open>bytes.decode(charset, errors="replace")\<close>.
\<close>

record urllib =
  Request :: "string \<Rightarrow> (string \<times> string) list \<Rightarrow> exn + request"
  urlopen :: "request \<Rightarrow> int \<Rightarrow> exn + response"
  decode :: "string \<Rightarrow> string \<Rightarrow> exn + string"

text \<open>
  The body of the \<open>with\<close> statement in \<open>fetch_html\<close>.
\<close>

definition read_response :: "urllib \<Rightarrow> response \<Rightarrow> exn + string" where
  "read_response lib resp =
     (let charset = (case get_content_charset resp of
                       None \<Rightarrow> ''utf-8''
                     | Some c \<Rightarrow> if c = [] then ''utf-8'' else c)
      in case read resp of
           Inl e \<Rightarrow> Inl e
         | Inr bytes \<Rightarrow> decode lib bytes charset)"

text \<open>
  The request is built on line 67, before the \<open>try\<close> statement opens on line 68: an
  exception of the constructor leaves \<open>fetch_html\<close>. Inside the \<open>try\<close>, an exception
  of one of the three classes gives \<open>None\<close>, any other one leaves \<open>fetch_html\<close>.
\<close>

definition fetch_html :: "urllib \<Rightarrow> string \<Rightarrow> int \<Rightarrow> string \<Rightarrow> exn + string option" where
  "fetch_html lib u timeout user_agent =
     (case Request lib u [(''User-Agent'', user_agent)] of
        Inl e \<Rightarrow> Inl e
      | Inr req \<Rightarrow>
          (case (case urlopen lib req timeout of
                   Inl e \<Rightarrow> Inl e
                 | Inr resp \<Rightarrow> read_response lib resp) of
             Inl e \<Rightarrow> if caught e then Inr None else Inl e
           | Inr text \<Rightarrow> Inr (Some text)))"

section \<open>Orchestration\<close>

definition DEFAULT_TIMEOUT :: int where
  "DEFAULT_TIMEOUT = 10"

definition DEFAULT_USER_AGENT :: string where
  "DEFAULT_USER_AGENT = ''MetaDescriptionFetcher/stdlib''"

text \<open>
  The loop of \<open>process_urls\<close> over the URLs, with the lines printed so far and the
  results appended so far. An exception of \<open>fetch_html\<close> or of
  \<open>extract_meta_description\<close> ends it: \<open>process_urls\<close> has no handler.
\<close>

fun process_loop ::
  "urllib \<Rightarrow> scanner \<Rightarrow> int \<Rightarrow> string \<Rightarrow> string list \<Rightarrow> string list \<Rightarrow>
   MetaDescriptionResult list \<Rightarrow> string list \<times> (exn + MetaDescriptionResult list)" where
  "process_loop lib scan timeout user_agent [] out results = (out, Inr results)"
| "process_loop lib scan timeout user_agent (u # rest) out results =
     (let out' = out @ [''Fetching '' @ u @ '' ...'']
      in case fetch_html lib u timeout user_agent of
           Inl e \<Rightarrow> (out', Inl e)
         | Inr html \<Rightarrow>
             (case (case html of
                      None \<Rightarrow> Inr []
                    | Some h \<Rightarrow> extract_meta_description scan h) of
                Inl e \<Rightarrow> (out', Inl e)
              | Inr d \<Rightarrow>
                  process_loop lib scan timeout user_agent rest out'
                    (results @ [\<lparr>url = u, description = d\<rparr>])))"

text \<open>
  \<open>process_urls\<close> returns the lines printed and either the exception it raised, the
  output file then not being written, or the rows written to the output file.
\<close>

definition process_urls ::
  "urllib \<Rightarrow> scanner \<Rightarrow> csv_rows \<Rightarrow> int \<Rightarrow> string \<Rightarrow> string list \<times> (exn + csv_rows)" where
  "process_urls lib scan input_rows timeout user_agent =
     (let urls = read_urls input_rows
      in if urls = [] then ([], Inl (ValueError ''The input CSV contains no URLs.''))
         else case process_loop lib scan timeout user_agent urls [] [] of
                (out, Inl e) \<Rightarrow> (out, Inl e)
              | (out, Inr results) \<Rightarrow> (out, Inr (write_results results)))"

text \<open>
  A run of \<open>main\<close>: the exit status, what \<open>sys.exit\<close> printed to standard error, the
  lines printed to standard output, and the rows of the output file if it was written.
  \<open>sys.exit\<close> with a string prints the string and exits with status 1. The input file is
  \<open>None\<close> when the path does not exist.
\<close>

record run =
  exit_status :: nat
  stderr :: "string option"
  stdout :: "string list"
  output_file :: "csv_rows option"

definition sys_exit :: "string \<Rightarrow> string list \<Rightarrow> run" where
  "sys_exit message out =
     \<lparr>exit_status = 1, stderr = Some message, stdout = out, output_file = None\<rparr>"

definition main ::
  "urllib \<Rightarrow> scanner \<Rightarrow> string \<Rightarrow> csv_rows option \<Rightarrow> int \<Rightarrow> string \<Rightarrow> run" where
  "main lib scan input_path input_file timeout user_agent =
     (case input_file of
        None \<Rightarrow>
          sys_exit (''Input file '' @ [CHR 0x27] @ input_path @ [CHR 0x27]
                    @ '' not found. Please add it to the repository root.'') []
      | Some input_rows \<Rightarrow>
          (case process_urls lib scan input_rows timeout user_agent of
             (out, Inl e) \<Rightarrow> sys_exit (str_exn e) out
           | (out, Inr written) \<Rightarrow>
               \<lparr>exit_status = 0, stderr = None, stdout = out, output_file = Some written\<rparr>))"


section \<open>The text of a CSV file\<close>

text \<open>
  Modelled from the spec: the text of the output file and its reading back. The spec
  speaks of "standard CSV quoting" and of "a standard CSV reader"; the repository only
  calls \<open>csv.writer(csvfile).writerow\<close>, whose code is the Python standard library's.
  The model follows the \<open>csv\<close> module with its default dialect \<open>excel\<close>: delimiter
  comma, quote character \<open>"\<close>, a quote inside a field doubled, quoting only where
  needed, line terminator CR LF. The limit on the length of a field that the reader can
  be configured with is left out.
\<close>

abbreviation DQUOTE :: char where "DQUOTE \<equiv> CHR 0x22"
abbreviation COMMA :: char where "COMMA \<equiv> CHR 0x2C"
abbreviation CR :: char where "CR \<equiv> CHR 0x0D"
abbreviation LF :: char where "LF \<equiv> CHR 0x0A"

text \<open>
  The writer. A field is quoted when it holds the delimiter, the quote character or a
  character of the line terminator. A row that is one empty field is written as \<open>""\<close>.
  \<open>csv_text rows\<close> is the text that the calls \<open>writerow(row)\<close>, one per row, leave in
  the file.
\<close>

definition needs_quoting :: "char \<Rightarrow> bool" where
  "needs_quoting c = (c = COMMA \<or> c = DQUOTE \<or> c = CR \<or> c = LF)"

definition join_append :: "string \<Rightarrow> string" where
  "join_append f =
     (if list_ex needs_quoting f
      then [DQUOTE] @ concat (map (\<lambda>c. if c = DQUOTE then [DQUOTE, DQUOTE] else [c]) f) @ [DQUOTE]
      else f)"

fun join_fields :: "string list \<Rightarrow> string" where
  "join_fields [] = []"
| "join_fields [f] = join_append f"
| "join_fields (f # g # fs) = join_append f @ [COMMA] @ join_fields (g # fs)"

definition writerow_text :: "string list \<Rightarrow> string" where
  "writerow_text row = (if row = [[]] then [DQUOTE, DQUOTE] else join_fields row) @ [CR, LF]"

definition csv_text :: "csv_rows \<Rightarrow> string" where
  "csv_text rows = concat (map writerow_text rows)"

text \<open>
  The reader iterates over the lines of the file, opened with \<open>newline=""\<close>: a line
  ends after LF, after CR LF, or after a CR that no LF follows, and keeps its ending. It
  passes the characters of each line to \<open>parse_process_char\<close>, and after them the
  end-of-line mark \<open>EOL\<close>.
\<close>

datatype sym = Ch char | EOL

fun file_syms :: "bool \<Rightarrow> string \<Rightarrow> sym list" where
  "file_syms pending [] = (if pending then [EOL] else [])"
| "file_syms pending (c # cs) =
     (if c = LF then Ch c # EOL # file_syms False cs
      else if c = CR then
        (case cs of
           [] \<Rightarrow> [Ch c, EOL]
         | d # ds \<Rightarrow>
             if d = LF then Ch c # Ch d # EOL # file_syms False ds
             else Ch c # EOL # file_syms False cs)
      else Ch c # file_syms True cs)"

text \<open>
  The states of the reader, and its step on one character. \<open>None\<close> is the error
  "new-line character seen in unquoted field".
\<close>

datatype pstate =
  START_RECORD | START_FIELD | IN_FIELD | IN_QUOTED_FIELD | QUOTE_IN_QUOTED_FIELD | EAT_CRNL

type_synonym parser = "pstate \<times> string \<times> string list"

definition parse_save_field :: "pstate \<Rightarrow> string \<Rightarrow> string list \<Rightarrow> parser" where
  "parse_save_field st fld flds = (st, [], flds @ [fld])"

definition start_field :: "string \<Rightarrow> string list \<Rightarrow> sym \<Rightarrow> parser option" where
  "start_field fld flds x =
     (case x of
        EOL \<Rightarrow> Some (parse_save_field START_RECORD fld flds)
      | Ch c \<Rightarrow>
          if c = LF \<or> c = CR then Some (parse_save_field EAT_CRNL fld flds)
          else if c = DQUOTE then Some (IN_QUOTED_FIELD, fld, flds)
          else if c = COMMA then Some (parse_save_field START_FIELD fld flds)
          else Some (IN_FIELD, fld @ [c], flds))"

fun parse_process_char :: "parser \<Rightarrow> sym \<Rightarrow> parser option" where
  "parse_process_char (START_RECORD, fld, flds) x =
     (case x of
        EOL \<Rightarrow> Some (START_RECORD, fld, flds)
      | Ch c \<Rightarrow>
          if c = LF \<or> c = CR then Some (EAT_CRNL, fld, flds)
          else start_field fld flds x)"
| "parse_process_char (START_FIELD, fld, flds) x = start_field fld flds x"
| "parse_process_char (IN_FIELD, fld, flds) x =
     (case x of
        EOL \<Rightarrow> Some (parse_save_field START_RECORD fld flds)
      | Ch c \<Rightarrow>
          if c = LF \<or> c = CR then Some (parse_save_field EAT_CRNL fld flds)
          else if c = COMMA then Some (parse_save_field START_FIELD fld flds)
          else Some (IN_FIELD, fld @ [c], flds))"
| "parse_process_char (IN_QUOTED_FIELD, fld, flds) x =
     (case x of
        EOL \<Rightarrow> Some (IN_QUOTED_FIELD, fld, flds)
      | Ch c \<Rightarrow>
          if c = DQUOTE then Some (QUOTE_IN_QUOTED_FIELD, fld, flds)
          else Some (IN_QUOTED_FIELD, fld @ [c], flds))"
| "parse_process_char (QUOTE_IN_QUOTED_FIELD, fld, flds) x =
     (case x of
        EOL \<Rightarrow> Some (parse_save_field START_RECORD fld flds)
      | Ch c \<Rightarrow>
          if c = DQUOTE then Some (IN_QUOTED_FIELD, fld @ [c], flds)
          else if c = COMMA then Some (parse_save_field START_FIELD fld flds)
          else if c = LF \<or> c = CR then Some (parse_save_field EAT_CRNL fld flds)
          else Some (IN_FIELD, fld @ [c], flds))"
| "parse_process_char (EAT_CRNL, fld, flds) x =
     (case x of
        EOL \<Rightarrow> Some (START_RECORD, fld, flds)
      | Ch c \<Rightarrow> if c = LF \<or> c = CR then Some (EAT_CRNL, fld, flds) else None)"

text \<open>
  A record is complete when the state is \<open>START_RECORD\<close> after the end of a line.
  At the end of the input, a field that was begun is saved as the last record.
\<close>

fun reader_loop :: "parser \<Rightarrow> sym list \<Rightarrow> csv_rows option" where
  "reader_loop (st, fld, flds) [] =
     (if fld \<noteq> [] \<or> st = IN_QUOTED_FIELD then Some [flds @ [fld]] else Some [])"
| "reader_loop p (x # xs) =
     (case parse_process_char p x of
        None \<Rightarrow> None
      | Some (st, fld, flds) \<Rightarrow>
          if x = EOL \<and> st = START_RECORD
          then map_option ((#) flds) (reader_loop (START_RECORD, [], []) xs)
          else reader_loop (st, fld, flds) xs)"

definition csv_reader :: "string \<Rightarrow> csv_rows option" where
  "csv_reader text = reader_loop (START_RECORD, [], []) (file_syms False text)"


section \<open>The records of a run without exceptions\<close>

text \<open>
  When every call of \<open>fetch_html\<close> returns and every call of
  \<open>extract_meta_description\<close> returns, the loop appends one record per URL, in order.
\<close>

definition description_for :: "urllib \<Rightarrow> scanner \<Rightarrow> int \<Rightarrow> string \<Rightarrow> string \<Rightarrow> string" where
  "description_for lib scan timeout user_agent u =
     (case fetch_html lib u timeout user_agent of
        Inr (Some h) \<Rightarrow> (case extract_meta_description scan h of Inr d \<Rightarrow> d | Inl e \<Rightarrow> [])
      | _ \<Rightarrow> [])"

definition returns_for :: "urllib \<Rightarrow> scanner \<Rightarrow> int \<Rightarrow> string \<Rightarrow> string \<Rightarrow> bool" where
  "returns_for lib scan timeout user_agent u =
     (case fetch_html lib u timeout user_agent of
        Inl e \<Rightarrow> False
      | Inr None \<Rightarrow> True
      | Inr (Some h) \<Rightarrow> (case extract_meta_description scan h of Inr d \<Rightarrow> True | Inl e \<Rightarrow> False))"


section \<open>Example inputs\<close>

definition example_scan :: scanner where
  "example_scan html =
     Inr [(''title'', []),
          (''meta'', [(''property'', Some ''og:description''), (''content'', Some ''OG text'')]),
          (''meta'', [(''name'', Some ''description''), (''content'', Some ''Later text'')])]"

text \<open>
  A first matching tag whose content is a space, a no-break space and a tab, before a
  matching tag with content.
\<close>

definition blank_first_scan :: scanner where
  "blank_first_scan html =
     Inr [(''meta'', [(''name'', Some ''Description''),
                      (''content'', Some [CHR 0x20, CHR 0xA0, CHR 0x09])]),
          (''meta'', [(''property'', Some ''og:description''), (''content'', Some ''Later text'')])]"






text \<open>
  The check of the constructor \<open>urllib.request.Request\<close> on its URL: the scheme is what
  the regular expression \<open>([^/:]+):(.*)\<close> matches at the start, and a URL without one is
  refused with \<open>ValueError("unknown url type: ...")\<close>.
\<close>

definition scheme_of :: "string \<Rightarrow> string option" where
  "scheme_of u =
     (let s = takeWhile (\<lambda>c. c \<noteq> CHR ''/'' \<and> c \<noteq> CHR '':'') u
      in if s \<noteq> [] \<and> take 1 (drop (length s) u) = '':'' then Some (lower s) else None)"

text \<open>A machine without network: every \<open>urlopen\<close> raises \<open>URLError\<close>.\<close>

definition offline_lib :: urllib where
  "offline_lib =
     \<lparr>Request = (\<lambda>u hs. if scheme_of u = None
                          then Inl (ValueError (''unknown url type: '' @ [CHR 0x27] @ u @ [CHR 0x27]))
                          else Inr \<lparr>full_url = u, headers = hs\<rparr>),
      urlopen = (\<lambda>req t. Inl (URLError ''<urlopen error [Errno -2] Name or service not known>'')),
      decode = (\<lambda>bytes charset. Inr bytes)\<rparr>"

text \<open>
  A server that closes the connection before it answers: \<open>urlopen\<close> raises
  \<open>http.client.RemoteDisconnected\<close>, which is none of the three classes.
\<close>

definition disconnecting_lib :: urllib where
  "disconnecting_lib =
     \<lparr>Request = (\<lambda>u hs. Inr \<lparr>full_url = u, headers = hs\<rparr>),
      urlopen = (\<lambda>req t. Inl (OtherException ''Remote end closed connection without response'')),
      decode = (\<lambda>bytes charset. Inr bytes)\<rparr>"

definition no_tags :: scanner where
  "no_tags html = Inr []"

text \<open>
  A server that answers every request with the page \<open><![foo]>\<close>, and the scanner on
  that page: \<open>HTMLParser.feed\<close> of CPython 3.11 takes \<open><![\<close> for the start of a marked
  section and raises \<open>AssertionError\<close> on the keyword \<open>foo\<close>. No other page is given to
  this scanner.
\<close>

definition marked_section_lib :: urllib where
  "marked_section_lib =
     \<lparr>Request = (\<lambda>u hs. Inr \<lparr>full_url = u, headers = hs\<rparr>),
      urlopen = (\<lambda>req t. Inr \<lparr>get_content_charset = None, read = Inr ''<![foo]>''\<rparr>),
      decode = (\<lambda>bytes charset. Inr bytes)\<rparr>"

definition marked_section_scan :: scanner where
  "marked_section_scan html =
     (if html = ''<![foo]>''
      then Inl (OtherException
                  (''unknown status keyword '' @ [CHR 0x27] @ ''foo'' @ [CHR 0x27]
                   @ '' in marked section''))
      else Inr [])"


section \<open>Properties of the description extractor\<close>

lemma handle_starttag_frozen:
  "meta_description self \<noteq> None \<Longrightarrow> handle_starttag self tag attrs = self"
  by (simp add: handle_starttag_def)

lemma handle_starttag_other:
  "\<not> is_description_meta (tag, attrs) \<Longrightarrow> handle_starttag self tag attrs = self"
  by (auto simp: handle_starttag_def is_description_meta_def Let_def)

lemma handle_starttag_match:
  "meta_description self = None \<Longrightarrow> is_description_meta (tag, attrs) \<Longrightarrow>
   handle_starttag self tag attrs = self\<lparr>meta_description := Some (content_of attrs)\<rparr>"
  by (auto simp: handle_starttag_def is_description_meta_def content_of_def Let_def)

lemma feed_frozen: "meta_description self \<noteq> None \<Longrightarrow> feed self evs = self"
  by (induction evs arbitrary: self) (auto simp: handle_starttag_frozen)

lemma feed_find:
  "meta_description self = None \<Longrightarrow>
   meta_description (feed self evs) =
     map_option (\<lambda>e. content_of (snd e)) (find is_description_meta evs)"
proof (induction evs arbitrary: self)
  case Nil
  then show ?case by simp
next
  case (Cons e evs)
  obtain tag attrs where e: "e = (tag, attrs)" by (cases e)
  show ?case
  proof (cases "is_description_meta e")
    case True
    then show ?thesis using Cons.prems e
      by (simp add: handle_starttag_match feed_frozen)
  next
    case False
    then show ?thesis using Cons e
      by (simp add: handle_starttag_other)
  qed
qed

lemma extract_find:
  "scan html = Inr tags \<Longrightarrow>
   extract_meta_description scan html =
     Inr (case find is_description_meta tags of
            None \<Rightarrow> []
          | Some e \<Rightarrow> content_of (snd e))"
  by (simp add: extract_meta_description_def MetaDescriptionParser_init_def feed_find
      split: option.splits)

lemma extract_raises_iff:
  "extract_meta_description scan html = Inl e \<longleftrightarrow> scan html = Inl e"
  by (simp add: extract_meta_description_def Let_def split: sum.splits)

lemma find_first:
  "\<forall>e\<in>set pre. \<not> P e \<Longrightarrow> P x \<Longrightarrow> find P (pre @ x # rest) = Some x"
  by (induction pre) auto

lemma dropWhile_all_iff: "(\<forall>x\<in>set (dropWhile P s). P x) \<longleftrightarrow> (\<forall>x\<in>set s. P x)"
proof
  assume a: "\<forall>x\<in>set (dropWhile P s). P x"
  have "dropWhile P s = []"
  proof (rule ccontr)
    assume ne: "dropWhile P s \<noteq> []"
    then have "\<not> P (hd (dropWhile P s))" by (rule hd_dropWhile)
    moreover have "hd (dropWhile P s) \<in> set (dropWhile P s)" using ne by simp
    ultimately show False using a by blast
  qed
  then show "\<forall>x\<in>set s. P x" by (simp add: dropWhile_eq_Nil_conv)
next
  assume "\<forall>x\<in>set s. P x"
  then show "\<forall>x\<in>set (dropWhile P s). P x" by (auto dest: set_dropWhileD)
qed

lemma strip_empty_iff: "strip s = [] \<longleftrightarrow> (\<forall>c\<in>set s. isspace c)"
  by (simp add: strip_def lstrip_def rstrip_def dropWhile_eq_Nil_conv dropWhile_all_iff)

lemma content_of_blank:
  "attributes_of attrs ''content'' = None \<or>
   (\<exists>s. attributes_of attrs ''content'' = Some s \<and> (\<forall>c\<in>set s. isspace c)) \<Longrightarrow>
   content_of attrs = []"
  by (auto simp: content_of_def dict_get_def strip_empty_iff)

subsection \<open>The dictionary of attributes and the attribute list\<close>






subsection \<open>The first matching tag\<close>

text \<open>
  Claim C2. When the scanner returns the start tags \<open>pre @ (tag, attrs) # rest\<close> and no
  tag of \<open>pre\<close> is a description tag, a description tag \<open>(tag, attrs)\<close> decides the
  result, whatever \<open>rest\<close> holds: only the first matching tag in document order is
  used. In particular, when that tag is \<open><meta property="og:description" content="OG
  text">\<close>, extraction yields \<open>OG text\<close>.
\<close>

theorem first_matching_tag_wins:
  assumes "scan html = Inr (pre @ (tag, attrs) # rest)"
    and "\<forall>e\<in>set pre. \<not> is_description_meta e"
  shows "(is_description_meta (tag, attrs) \<longrightarrow>
            extract_meta_description scan html = Inr (content_of attrs)) \<and>
         (tag = ''meta'' \<and>
          attrs = [(''property'', Some ''og:description''), (''content'', Some ''OG text'')] \<longrightarrow>
            extract_meta_description scan html = Inr ''OG text'')"
proof -
  have general: "extract_meta_description scan html = Inr (content_of attrs)"
    if "is_description_meta (tag, attrs)"
    using assms that by (simp add: extract_find find_first)
  have og: "is_description_meta
              (''meta'', [(''property'', Some ''og:description''), (''content'', Some ''OG text'')])"
    by code_simp
  have og_content:
    "content_of [(''property'', Some ''og:description''), (''content'', Some ''OG text'')] = ''OG text''"
    by code_simp
  show ?thesis using general og og_content by auto
qed

theorem first_matching_tag_wins_witness:
  "example_scan ''page'' =
     Inr ([(''title'', [])] @
          (''meta'', [(''property'', Some ''og:description''), (''content'', Some ''OG text'')]) #
          [(''meta'', [(''name'', Some ''description''), (''content'', Some ''Later text'')])]) \<and>
   \<not> is_description_meta (''title'', []) \<and>
   is_description_meta (''meta'', [(''name'', Some ''description''), (''content'', Some ''Later text'')]) \<and>
   extract_meta_description example_scan ''page'' = Inr ''OG text''"
proof -
  have split: "example_scan ''page'' =
     Inr ([(''title'', [])] @
          (''meta'', [(''property'', Some ''og:description''), (''content'', Some ''OG text'')]) #
          [(''meta'', [(''name'', Some ''description''), (''content'', Some ''Later text'')])])"
    by (simp add: example_scan_def)
  have before: "\<forall>e\<in>set [(''title'', [])]. \<not> is_description_meta e"
    by code_simp
  have later: "is_description_meta
                 (''meta'', [(''name'', Some ''description''), (''content'', Some ''Later text'')])"
    by code_simp
  show ?thesis
    using first_matching_tag_wins
            [where scan = example_scan and html = "''page''" and pre = "[(''title'', [])]"
               and tag = "''meta''"
               and attrs = "[(''property'', Some ''og:description''), (''content'', Some ''OG text'')]"
               and rest = "[(''meta'', [(''name'', Some ''description''), (''content'', Some ''Later text'')])]"]
          split before later
    by simp
qed



text \<open>
  Claim C10. When the first matching tag has no \<open>content\<close> attribute, or one made of
  whitespace only, extraction returns the empty string, whatever tags follow it: the
  first match freezes the recorded value.
\<close>

theorem blank_first_match_freezes:
  assumes "scan html = Inr (pre @ (tag, attrs) # rest)"
    and "\<forall>e\<in>set pre. \<not> is_description_meta e"
    and "is_description_meta (tag, attrs)"
    and "attributes_of attrs ''content'' = None \<or>
         (\<exists>s. attributes_of attrs ''content'' = Some s \<and> (\<forall>c\<in>set s. isspace c))"
  shows "extract_meta_description scan html = Inr []"
  using assms by (simp add: extract_find find_first content_of_blank)

theorem blank_first_match_freezes_witness:
  "blank_first_scan ''page'' =
     Inr ([] @ (''meta'', [(''name'', Some ''Description''),
                           (''content'', Some [CHR 0x20, CHR 0xA0, CHR 0x09])]) #
          [(''meta'', [(''property'', Some ''og:description''), (''content'', Some ''Later text'')])]) \<and>
   is_description_meta (''meta'', [(''name'', Some ''Description''),
                                   (''content'', Some [CHR 0x20, CHR 0xA0, CHR 0x09])]) \<and>
   isspace (CHR 0x20) \<and> isspace (CHR 0xA0) \<and> isspace (CHR 0x09) \<and>
   is_description_meta
     (''meta'', [(''property'', Some ''og:description''), (''content'', Some ''Later text'')]) \<and>
   content_of [(''property'', Some ''og:description''), (''content'', Some ''Later text'')] =
     ''Later text'' \<and>
   extract_meta_description blank_first_scan ''page'' = Inr []"
proof -
  have split: "blank_first_scan ''page'' =
     Inr ([] @ (''meta'', [(''name'', Some ''Description''),
                           (''content'', Some [CHR 0x20, CHR 0xA0, CHR 0x09])]) #
          [(''meta'', [(''property'', Some ''og:description''), (''content'', Some ''Later text'')])])"
    by (simp add: blank_first_scan_def)
  have before: "\<forall>e\<in>set ([] :: starttag list). \<not> is_description_meta e"
    by simp
  have first: "is_description_meta
                 (''meta'', [(''name'', Some ''Description''),
                             (''content'', Some [CHR 0x20, CHR 0xA0, CHR 0x09])])"
    by code_simp
  have spaces: "isspace (CHR 0x20) \<and> isspace (CHR 0xA0) \<and> isspace (CHR 0x09)"
    by code_simp
  have blank: "attributes_of [(''name'', Some ''Description''),
                              (''content'', Some [CHR 0x20, CHR 0xA0, CHR 0x09])]
                 ''content'' = None \<or>
               (\<exists>s. attributes_of [(''name'', Some ''Description''),
                                    (''content'', Some [CHR 0x20, CHR 0xA0, CHR 0x09])]
                      ''content'' = Some s \<and> (\<forall>c\<in>set s. isspace c))"
  proof -
    have "attributes_of [(''name'', Some ''Description''),
                         (''content'', Some [CHR 0x20, CHR 0xA0, CHR 0x09])]
            ''content'' = Some [CHR 0x20, CHR 0xA0, CHR 0x09]"
      by code_simp
    moreover have "\<forall>c\<in>set [CHR 0x20, CHR 0xA0, CHR 0x09]. isspace c"
      using spaces by simp
    ultimately show ?thesis by blast
  qed
  have later: "is_description_meta
     (''meta'', [(''property'', Some ''og:description''), (''content'', Some ''Later text'')])"
    by code_simp
  have later_content:
    "content_of [(''property'', Some ''og:description''), (''content'', Some ''Later text'')] =
       ''Later text''"
    by code_simp
  show ?thesis
    using blank_first_match_freezes
            [where scan = blank_first_scan and html = "''page''" and pre = "[]"
               and tag = "''meta''"
               and attrs = "[(''name'', Some ''Description''),
                             (''content'', Some [CHR 0x20, CHR 0xA0, CHR 0x09])]"
               and rest = "[(''meta'', [(''property'', Some ''og:description''),
                                        (''content'', Some ''Later text'')])]",
             OF split before first blank]
          split first spaces later later_content
    by simp
qed


section \<open>Properties of the URL reader\<close>

lemma read_urls_loop_filter:
  "read_urls_loop urls rows =
     urls @ filter (\<lambda>u. u \<noteq> [] \<and> lower u \<noteq> ''url'')
              (map (\<lambda>row. strip (hd row)) (filter (\<lambda>row. row \<noteq> []) rows))"
proof (induction rows arbitrary: urls)
  case Nil
  then show ?case by simp
next
  case (Cons row rows)
  show ?case
  proof (cases row)
    case Nil
    then show ?thesis by (simp add: Cons.IH)
  next
    case (Cons field fields)
    then show ?thesis by (simp add: Let_def Cons.IH)
  qed
qed

lemma read_urls_filter:
  "read_urls rows =
     filter (\<lambda>u. u \<noteq> [] \<and> lower u \<noteq> ''url'')
       (map (\<lambda>row. strip (hd row)) (filter (\<lambda>row. row \<noteq> []) rows))"
  by (simp add: read_urls_def read_urls_loop_filter)

text \<open>
  Claim C6. \<open>read_urls\<close> returns, in input order, the trimmed first field of every
  non-empty row, leaving out the rows whose trimmed first field is empty or is \<open>url\<close>
  without regard to case. The header test is made on every row: a row whose trimmed
  first field is \<open>url\<close> is skipped at any position, after any rows \<open>before\<close>.
\<close>

theorem read_urls_spec:
  "read_urls rows =
     filter (\<lambda>u. u \<noteq> [] \<and> lower u \<noteq> ''url'')
       (map (\<lambda>row. strip (hd row)) (filter (\<lambda>row. row \<noteq> []) rows)) \<and>
   (\<forall>before row after. row \<noteq> [] \<and> lower (strip (hd row)) = ''url'' \<longrightarrow>
      read_urls (before @ row # after) = read_urls (before @ after))"
proof -
  have "read_urls (before @ row # after) = read_urls (before @ after)"
    if "row \<noteq> [] \<and> lower (strip (hd row)) = ''url''" for before row after
    using that by (simp add: read_urls_filter)
  then show ?thesis using read_urls_filter by blast
qed

text \<open>
  The rows of the example that follows: a header, a URL between a no-break space, a space and a tab,
  an empty row, a row whose first field is empty, a header in capitals in the fifth row,
  a row whose first field is a no-break space, and a URL followed by a no-break space
  with a second field.
\<close>

theorem read_urls_spec_witness:
  "read_urls [[''url''], [[CHR 0xA0, CHR 0x20] @ ''http://a.example'' @ [CHR 0x09]], [], [[]],
              [''URL'', ''x''], [[CHR 0xA0]], [''http://b.example'' @ [CHR 0xA0], ''extra'']] =
     [''http://a.example'', ''http://b.example''] \<and>
   lower (strip (hd [''URL'', ''x''])) = ''url'' \<and>
   read_urls ([[''http://a.example'']] @ [''URL'', ''x''] # [[''http://b.example'']]) =
   read_urls ([[''http://a.example'']] @ [[''http://b.example'']])"
proof -
  have hdr: "[''URL'', ''x''] \<noteq> [] \<and> lower (strip (hd [''URL'', ''x''])) = ''url''"
    by code_simp
  have val: "filter (\<lambda>u. u \<noteq> [] \<and> lower u \<noteq> ''url'')
       (map (\<lambda>row. strip (hd row)) (filter (\<lambda>row. row \<noteq> [])
          [[''url''], [[CHR 0xA0, CHR 0x20] @ ''http://a.example'' @ [CHR 0x09]], [], [[]],
           [''URL'', ''x''], [[CHR 0xA0]], [''http://b.example'' @ [CHR 0xA0], ''extra'']])) =
     [''http://a.example'', ''http://b.example'']"
    by code_simp
  note spec = read_urls_spec
    [of "[[''url''], [[CHR 0xA0, CHR 0x20] @ ''http://a.example'' @ [CHR 0x09]], [], [[]],
          [''URL'', ''x''], [[CHR 0xA0]], [''http://b.example'' @ [CHR 0xA0], ''extra'']]"]
  from spec have skip:
    "\<forall>before row after. row \<noteq> [] \<and> lower (strip (hd row)) = ''url'' \<longrightarrow>
       read_urls (before @ row # after) = read_urls (before @ after)"
    by (rule conjunct2)
  from skip hdr
  have "read_urls ([[''http://a.example'']] @ [''URL'', ''x''] # [[''http://b.example'']]) =
        read_urls ([[''http://a.example'']] @ [[''http://b.example'']])"
    by blast
  moreover from spec val
  have "read_urls [[''url''], [[CHR 0xA0, CHR 0x20] @ ''http://a.example'' @ [CHR 0x09]], [], [[]],
              [''URL'', ''x''], [[CHR 0xA0]], [''http://b.example'' @ [CHR 0xA0], ''extra'']] =
     [''http://a.example'', ''http://b.example'']"
    by simp
  ultimately show ?thesis using hdr by blast
qed

section \<open>Properties of the result writer\<close>

lemma write_results_loop_map:
  "write_results_loop csvfile results =
     csvfile @ map (\<lambda>r. [url r, description r]) results"
  by (induction results arbitrary: csvfile) (simp_all add: writerow_def)

text \<open>
  Claim C8. \<open>write_results\<close> writes the header row \<open>URL, Meta Description\<close> and then
  one row per result record, in the order of the records, the columns being the URL and
  the description as they are.
\<close>

theorem write_results_rows:
  "write_results results =
     [''URL'', ''Meta Description''] # map (\<lambda>r. [url r, description r]) results"
  by (simp add: write_results_def write_results_loop_map writerow_def)

section \<open>Properties of the orchestration\<close>

lemma process_loop_returns:
  "list_all (returns_for lib scan timeout ua) urls \<Longrightarrow>
   snd (process_loop lib scan timeout ua urls out results) =
     Inr (results @ map (\<lambda>u. \<lparr>url = u, description = description_for lib scan timeout ua u\<rparr>) urls)"
proof (induction urls arbitrary: out results)
  case Nil
  then show ?case by simp
next
  case (Cons u urls)
  have rest: "list_all (returns_for lib scan timeout ua) urls" using Cons.prems by simp
  have this_one: "returns_for lib scan timeout ua u" using Cons.prems by simp
  show ?case
    using Cons.IH [OF rest] this_one
    by (auto simp: returns_for_def description_for_def Let_def split: sum.splits option.splits)
qed

lemma process_urls_records:
  assumes "read_urls input_rows \<noteq> []"
    and "list_all (returns_for lib scan timeout ua) (read_urls input_rows)"
  shows "snd (process_urls lib scan input_rows timeout ua) =
           Inr (write_results
                  (map (\<lambda>u. \<lparr>url = u, description = description_for lib scan timeout ua u\<rparr>)
                     (read_urls input_rows)))"
proof -
  obtain out r where loop:
    "process_loop lib scan timeout ua (read_urls input_rows) [] [] = (out, r)"
    by (cases "process_loop lib scan timeout ua (read_urls input_rows) [] []")
  from process_loop_returns [OF assms(2), of "[]" "[]"] loop
  have "r = Inr (map (\<lambda>u. \<lparr>url = u, description = description_for lib scan timeout ua u\<rparr>)
                   (read_urls input_rows))"
    by simp
  with loop assms(1) show ?thesis
    by (simp add: process_urls_def)
qed

text \<open>
  Claim C1 does not hold of the code. A server closes the connection of the first of two
  URLs without an answer: \<open>urlopen\<close> raises \<open>RemoteDisconnected\<close>, which the \<open>except\<close>
  clause of \<open>fetch_html\<close> does not name, \<open>fetch_html\<close> raises, and \<open>process_urls\<close>,
  which has no handler, stops before the second URL: no record is written for either
  URL, where the claim has one record per URL, with an empty description for the URL
  that failed. On a machine without network the same two fetches fail with \<open>URLError\<close>,
  and there the code does what the claim says.
\<close>

theorem process_urls_stops_at_uncaught_exception:
  "read_urls [[''http://a.example''], [''http://b.example'']] =
     [''http://a.example'', ''http://b.example''] \<and>
   fetch_html disconnecting_lib ''http://a.example'' DEFAULT_TIMEOUT DEFAULT_USER_AGENT =
     Inl (OtherException ''Remote end closed connection without response'') \<and>
   process_urls disconnecting_lib no_tags [[''http://a.example''], [''http://b.example'']]
       DEFAULT_TIMEOUT DEFAULT_USER_AGENT =
     ([''Fetching http://a.example ...''],
      Inl (OtherException ''Remote end closed connection without response'')) \<and>
   process_urls offline_lib no_tags [[''http://a.example''], [''http://b.example'']]
       DEFAULT_TIMEOUT DEFAULT_USER_AGENT =
     ([''Fetching http://a.example ...'', ''Fetching http://b.example ...''],
      Inr [[''URL'', ''Meta Description''], [''http://a.example'', ''''],
           [''http://b.example'', '''']])"
  by code_simp

text \<open>
  Claim C4 does not hold of the code. The URL \<open>example.com\<close> has no scheme, the
  constructor \<open>Request\<close> raises \<open>ValueError\<close> on line 67, outside the \<open>try\<close>
  statement whose \<open>except\<close> clause names \<open>ValueError\<close>: \<open>fetch_html\<close> raises, and
  \<open>process_urls\<close> stops without a record for this URL or the next one. A URL with a
  scheme whose host cannot be resolved gives \<open>None\<close>, as the claim says.
\<close>

theorem fetch_html_malformed_url_raises:
  "fetch_html offline_lib ''http://a.invalid'' DEFAULT_TIMEOUT DEFAULT_USER_AGENT = Inr None \<and>
   fetch_html offline_lib ''example.com'' DEFAULT_TIMEOUT DEFAULT_USER_AGENT =
     Inl (ValueError (''unknown url type: '' @ [CHR 0x27] @ ''example.com'' @ [CHR 0x27])) \<and>
   process_urls offline_lib no_tags [[''example.com''], [''http://a.invalid'']]
       DEFAULT_TIMEOUT DEFAULT_USER_AGENT =
     ([''Fetching example.com ...''],
      Inl (ValueError (''unknown url type: '' @ [CHR 0x27] @ ''example.com'' @ [CHR 0x27])))"
  by code_simp

lemma fetch_html_request_raises:
  "Request lib u [(''User-Agent'', ua)] = Inl e \<Longrightarrow> fetch_html lib u timeout ua = Inl e"
  by (simp add: fetch_html_def)

lemma fetch_html_caught:
  "Request lib u [(''User-Agent'', ua)] = Inr req \<Longrightarrow> urlopen lib req timeout = Inl e \<Longrightarrow>
   caught e \<Longrightarrow> fetch_html lib u timeout ua = Inr None"
  by (simp add: fetch_html_def)

text \<open>
  Claim C9 does not hold of the code. \<open>extract_meta_description\<close> calls
  \<open>parser.feed(html)\<close> without a handler, and \<open>feed\<close> is not total: on the page
  \<open><![foo]>\<close> the scanner of CPython 3.11 raises \<open>AssertionError\<close>. The exception
  leaves \<open>extract_meta_description\<close>, \<open>process_urls\<close> stops at that page before the
  second URL, and \<open>main\<close> exits with status 1 without an output file, where the claim has
  the empty string returned.
\<close>

theorem extract_meta_description_raises:
  "extract_meta_description marked_section_scan ''<![foo]>'' =
     Inl (OtherException (''unknown status keyword '' @ [CHR 0x27] @ ''foo'' @ [CHR 0x27]
                          @ '' in marked section'')) \<and>
   fetch_html marked_section_lib ''http://a.example'' DEFAULT_TIMEOUT DEFAULT_USER_AGENT =
     Inr (Some ''<![foo]>'') \<and>
   process_urls marked_section_lib marked_section_scan
       [[''http://a.example''], [''http://b.example'']] DEFAULT_TIMEOUT DEFAULT_USER_AGENT =
     ([''Fetching http://a.example ...''],
      Inl (OtherException (''unknown status keyword '' @ [CHR 0x27] @ ''foo'' @ [CHR 0x27]
                           @ '' in marked section''))) \<and>
   main marked_section_lib marked_section_scan ''urls.csv''
       (Some [[''http://a.example''], [''http://b.example'']]) DEFAULT_TIMEOUT DEFAULT_USER_AGENT =
     \<lparr>exit_status = 1,
      stderr = Some (''unknown status keyword '' @ [CHR 0x27] @ ''foo'' @ [CHR 0x27]
                     @ '' in marked section''),
      stdout = [''Fetching http://a.example ...''], output_file = None\<rparr>"
  by code_simp

text \<open>
  Claim C5. When the URL reader yields no URL, \<open>main\<close> exits with status 1 and the
  message \<open>The input CSV contains no URLs.\<close>, nothing has been printed, so no fetch was
  started, and the output file is not written. The result does not depend on the
  network.
\<close>

theorem no_urls_error:
  assumes "read_urls input_rows = []"
  shows "main lib scan input_path (Some input_rows) timeout ua =
           \<lparr>exit_status = 1, stderr = Some ''The input CSV contains no URLs.'',
            stdout = [], output_file = None\<rparr>"
  using assms by (simp add: main_def process_urls_def sys_exit_def)

theorem no_urls_error_witness:
  "read_urls [[''url'']] = [] \<and>
   main offline_lib no_tags ''urls.csv'' (Some [[''url'']]) DEFAULT_TIMEOUT DEFAULT_USER_AGENT =
     \<lparr>exit_status = 1, stderr = Some ''The input CSV contains no URLs.'',
      stdout = [], output_file = None\<rparr>"
proof -
  have empty: "read_urls [[''url'']] = []" by code_simp
  show ?thesis
    using no_urls_error [OF empty, of offline_lib no_tags "''urls.csv''" DEFAULT_TIMEOUT
                           DEFAULT_USER_AGENT] empty
    by simp
qed


section \<open>Reading back what the writer wrote\<close>

subsection \<open>Fields without quotes\<close>

lemma file_syms_plain:
  "\<forall>c\<in>set a. \<not> needs_quoting c \<Longrightarrow>
   file_syms b (a @ xs) = map Ch a @ file_syms (b \<or> a \<noteq> []) xs"
  by (induction a arbitrary: b) (auto simp: needs_quoting_def)

lemma reader_loop_in_field:
  "\<forall>c\<in>set a. \<not> needs_quoting c \<Longrightarrow>
   reader_loop (IN_FIELD, fld, flds) (map Ch a @ ys) = reader_loop (IN_FIELD, fld @ a, flds) ys"
  by (induction a arbitrary: fld) (auto simp: needs_quoting_def)

lemma reader_loop_plain_field:
  assumes "\<forall>c\<in>set a. \<not> needs_quoting c" and "a \<noteq> []"
    and "st = START_RECORD \<or> st = START_FIELD"
  shows "reader_loop (st, [], flds) (map Ch a @ ys) = reader_loop (IN_FIELD, a, flds) ys"
proof -
  obtain c a' where a: "a = c # a'" using assms(2) by (cases a) auto
  have c: "\<not> needs_quoting c" and a': "\<forall>c\<in>set a'. \<not> needs_quoting c"
    using assms(1) a by auto
  have "reader_loop (st, [], flds) (Ch c # map Ch a' @ ys) =
        reader_loop (IN_FIELD, [c], flds) (map Ch a' @ ys)"
    using c assms(3) by (auto simp: needs_quoting_def start_field_def)
  then show ?thesis using a reader_loop_in_field [OF a'] by simp
qed

subsection \<open>Inside quotes\<close>

lemma in_quoted_char:
  "c \<noteq> DQUOTE \<Longrightarrow>
   \<exists>b'. reader_loop (IN_QUOTED_FIELD, fld, flds) (file_syms b (c # xs)) =
         reader_loop (IN_QUOTED_FIELD, fld @ [c], flds) (file_syms b' xs)"
proof -
  assume q: "c \<noteq> DQUOTE"
  show ?thesis
  proof (cases "c = LF")
    case True
    then have "reader_loop (IN_QUOTED_FIELD, fld, flds) (file_syms b (c # xs)) =
         reader_loop (IN_QUOTED_FIELD, fld @ [c], flds) (file_syms False xs)"
      by simp
    then show ?thesis by blast
  next
    case False
    show ?thesis
    proof (cases "c = CR")
      case True
      show ?thesis
      proof (cases xs)
        case Nil
        then have "reader_loop (IN_QUOTED_FIELD, fld, flds) (file_syms b (c # xs)) =
           reader_loop (IN_QUOTED_FIELD, fld @ [c], flds) (file_syms False xs)"
          using True by simp
        then show ?thesis by blast
      next
        case (Cons d ds)
        then have "reader_loop (IN_QUOTED_FIELD, fld, flds) (file_syms b (c # xs)) =
           reader_loop (IN_QUOTED_FIELD, fld @ [c], flds) (file_syms False xs)"
          using True by simp
        then show ?thesis by blast
      qed
    next
      case False
      then have "reader_loop (IN_QUOTED_FIELD, fld, flds) (file_syms b (c # xs)) =
           reader_loop (IN_QUOTED_FIELD, fld @ [c], flds) (file_syms True xs)"
        using q \<open>c \<noteq> LF\<close> by simp
      then show ?thesis by blast
    qed
  qed
qed

lemma in_quoted_field:
  "reader_loop (IN_QUOTED_FIELD, fld, flds)
     (file_syms b (concat (map (\<lambda>c. if c = DQUOTE then [DQUOTE, DQUOTE] else [c]) a)
                   @ DQUOTE # rest)) =
   reader_loop (QUOTE_IN_QUOTED_FIELD, fld @ a, flds) (file_syms True rest)"
proof (induction a arbitrary: fld b)
  case Nil
  then show ?case by simp
next
  case (Cons c a)
  show ?case
  proof (cases "c = DQUOTE")
    case True
    then show ?thesis using Cons.IH [of "fld @ [c]" True] by simp
  next
    case False
    from in_quoted_char [OF False] obtain b' where
      "reader_loop (IN_QUOTED_FIELD, fld, flds)
         (file_syms b (c # concat (map (\<lambda>c. if c = DQUOTE then [DQUOTE, DQUOTE] else [c]) a)
                        @ DQUOTE # rest)) =
       reader_loop (IN_QUOTED_FIELD, fld @ [c], flds)
         (file_syms b' (concat (map (\<lambda>c. if c = DQUOTE then [DQUOTE, DQUOTE] else [c]) a)
                        @ DQUOTE # rest))"
      by blast
    then show ?thesis using False Cons.IH [of "fld @ [c]" b'] by simp
  qed
qed

subsection \<open>A field and the character after it\<close>

lemma read_quoted_field:
  assumes "st = START_RECORD \<or> st = START_FIELD" and "list_ex needs_quoting a"
  shows "reader_loop (st, [], flds) (file_syms b (join_append a @ ys)) =
         reader_loop (QUOTE_IN_QUOTED_FIELD, a, flds) (file_syms True ys)"
proof -
  let ?body = "concat (map (\<lambda>c. if c = DQUOTE then [DQUOTE, DQUOTE] else [c]) a)"
  have shape: "join_append a @ ys = DQUOTE # ?body @ DQUOTE # ys"
    using assms(2) by (simp add: join_append_def)
  have syms: "file_syms b (DQUOTE # ?body @ DQUOTE # ys) =
              Ch DQUOTE # file_syms True (?body @ DQUOTE # ys)"
    by simp
  have step: "parse_process_char (st, [], flds) (Ch DQUOTE) = Some (IN_QUOTED_FIELD, [], flds)"
    using assms(1) by (auto simp: start_field_def)
  have "reader_loop (st, [], flds) (Ch DQUOTE # file_syms True (?body @ DQUOTE # ys)) =
        reader_loop (IN_QUOTED_FIELD, [], flds) (file_syms True (?body @ DQUOTE # ys))"
    by (simp only: reader_loop.simps step option.case prod.case sym.distinct simp_thms if_False)
  also have "\<dots> = reader_loop (QUOTE_IN_QUOTED_FIELD, a, flds) (file_syms True ys)"
    using in_quoted_field [of "[]" flds True a ys] by simp
  finally show ?thesis by (simp only: shape syms)
qed

lemma read_plain_field:
  assumes "st = START_RECORD \<or> st = START_FIELD" and "\<not> list_ex needs_quoting a" and "a \<noteq> []"
  shows "reader_loop (st, [], flds) (file_syms b (join_append a @ ys)) =
         reader_loop (IN_FIELD, a, flds) (file_syms True ys)"
proof -
  have plain: "\<forall>c\<in>set a. \<not> needs_quoting c" using assms(2) by (simp add: list_ex_iff)
  have "join_append a = a" using assms(2) by (simp add: join_append_def)
  moreover have "file_syms b (a @ ys) = map Ch a @ file_syms True ys"
    using file_syms_plain [OF plain, of b ys] assms(3) by simp
  ultimately show ?thesis
    using reader_loop_plain_field [OF plain assms(3) assms(1), of flds "file_syms True ys"]
    by simp
qed

lemma join_append_Nil: "join_append [] = []"
  by (simp add: join_append_def)

lemma comma_step:
  assumes "st \<noteq> IN_QUOTED_FIELD" and "st \<noteq> EAT_CRNL"
  shows "reader_loop (st, fld, flds) (file_syms b (COMMA # rest)) =
         reader_loop (START_FIELD, [], flds @ [fld]) (file_syms True rest)"
  using assms by (cases st) (simp_all add: start_field_def parse_save_field_def)

lemma crlf_step:
  assumes "st = START_FIELD \<or> st = IN_FIELD \<or> st = QUOTE_IN_QUOTED_FIELD"
  shows "reader_loop (st, fld, flds) (file_syms b (CR # LF # rest)) =
         map_option ((#) (flds @ [fld])) (reader_loop (START_RECORD, [], []) (file_syms False rest))"
  using assms by (cases st) (simp_all add: start_field_def parse_save_field_def)

lemma read_field_comma:
  assumes "st = START_RECORD \<or> st = START_FIELD"
  shows "reader_loop (st, [], flds) (file_syms b (join_append a @ COMMA # rest)) =
         reader_loop (START_FIELD, [], flds @ [a]) (file_syms True rest)"
proof (cases "list_ex needs_quoting a")
  case True
  show ?thesis
    by (simp only: read_quoted_field [OF assms True]) (simp add: comma_step parse_save_field_def start_field_def)
next
  case False
  show ?thesis
  proof (cases "a = []")
    case True
    have ne1: "st \<noteq> IN_QUOTED_FIELD" and ne2: "st \<noteq> EAT_CRNL" using assms by auto
    show ?thesis unfolding True join_append_Nil append_Nil
      by (rule comma_step [OF ne1 ne2])
  next
    case ne: False
    show ?thesis
      by (simp only: read_plain_field [OF assms False ne]) (simp add: comma_step parse_save_field_def start_field_def)
  qed
qed

lemma read_last_field:
  "reader_loop (START_FIELD, [], flds) (file_syms b (join_append a @ CR # LF # rest)) =
   map_option ((#) (flds @ [a])) (reader_loop (START_RECORD, [], []) (file_syms False rest))"
proof (cases "list_ex needs_quoting a")
  have sf: "START_FIELD = START_RECORD \<or> START_FIELD = START_FIELD" by simp
  case True
  show ?thesis
    by (simp only: read_quoted_field [OF sf True]) (simp add: crlf_step parse_save_field_def start_field_def)
next
  have sf: "START_FIELD = START_RECORD \<or> START_FIELD = START_FIELD" by simp
  case False
  show ?thesis
  proof (cases "a = []")
    case True
    then show ?thesis by (simp only: join_append_Nil append_Nil) (simp add: crlf_step parse_save_field_def start_field_def)
  next
    case ne: False
    show ?thesis
      by (simp only: read_plain_field [OF sf False ne]) (simp add: crlf_step parse_save_field_def start_field_def)
  qed
qed

lemma join_fields_two: "join_fields [a, b] = join_append a @ COMMA # join_append b"
  by simp

lemma read_row2:
  "reader_loop (START_RECORD, [], []) (file_syms False (writerow_text [a, b] @ rest)) =
   map_option ((#) [a, b]) (reader_loop (START_RECORD, [], []) (file_syms False rest))"
proof -
  have "writerow_text [a, b] @ rest =
        join_append a @ COMMA # (join_append b @ CR # LF # rest)"
    by (simp add: writerow_text_def)
  then show ?thesis
    using read_field_comma [of START_RECORD "[]" False a "join_append b @ CR # LF # rest"]
      read_last_field [of "[a]" True b rest]
    by simp
qed

lemma csv_reader_csv_text:
  "\<forall>row\<in>set rows. \<exists>a b. row = [a, b] \<Longrightarrow> csv_reader (csv_text rows) = Some rows"
proof (induction rows)
  case Nil
  then show ?case by (simp add: csv_reader_def csv_text_def)
next
  case (Cons row rows)
  then obtain a b where row: "row = [a, b]" by auto
  have "csv_reader (csv_text rows) = Some rows" using Cons by simp
  then show ?case
    using read_row2 [of a b "csv_text rows"] row
    by (simp add: csv_reader_def csv_text_def)
qed

lemma write_results_two_fields:
  "\<forall>row\<in>set (write_results results). \<exists>a b. row = [a, b]"
  by (auto simp: write_results_def write_results_loop_map writerow_def)

text \<open>
  Claim C7. Reading the text that \<open>write_results\<close> writes gives back the header row and
  then, for every result record in the original order, the row of its URL and its
  description, character for character.
\<close>

theorem write_results_round_trip:
  "csv_reader (csv_text (write_results results)) =
     Some ([''URL'', ''Meta Description''] # map (\<lambda>r. [url r, description r]) results)"
  using csv_reader_csv_text [OF write_results_two_fields, of results]
  by (simp add: write_results_def write_results_loop_map writerow_def)

theorem write_results_round_trip_witness:
  "csv_text (write_results [\<lparr>url = ''http://a.example/?q=1,2'',
                             description = [CHR ''a'', DQUOTE, CHR ''b'', CR, LF, CHR ''c'']\<rparr>]) =
     ''URL,Meta Description'' @ [CR, LF] @
     [DQUOTE] @ ''http://a.example/?q=1,2'' @ [DQUOTE, COMMA] @
     [DQUOTE, CHR ''a'', DQUOTE, DQUOTE, CHR ''b'', CR, LF, CHR ''c'', DQUOTE, CR, LF] \<and>
   csv_reader (csv_text (write_results [\<lparr>url = ''http://a.example/?q=1,2'',
                             description = [CHR ''a'', DQUOTE, CHR ''b'', CR, LF, CHR ''c'']\<rparr>])) =
     Some [[''URL'', ''Meta Description''],
           [''http://a.example/?q=1,2'', [CHR ''a'', DQUOTE, CHR ''b'', CR, LF, CHR ''c'']]]"
proof -
  have written: "csv_text (write_results [\<lparr>url = ''http://a.example/?q=1,2'',
                             description = [CHR ''a'', DQUOTE, CHR ''b'', CR, LF, CHR ''c'']\<rparr>]) =
     ''URL,Meta Description'' @ [CR, LF] @
     [DQUOTE] @ ''http://a.example/?q=1,2'' @ [DQUOTE, COMMA] @
     [DQUOTE, CHR ''a'', DQUOTE, DQUOTE, CHR ''b'', CR, LF, CHR ''c'', DQUOTE, CR, LF]"
    by code_simp
  show ?thesis
    using write_results_round_trip [of "[\<lparr>url = ''http://a.example/?q=1,2'',
                             description = [CHR ''a'', DQUOTE, CHR ''b'', CR, LF, CHR ''c'']\<rparr>]"]
      written
    by simp
qed

end
